theory Spec2Isabelle
  imports Main "HOL-Library.Sublist"
begin

section \<open>Feed entries, article records and tables\<close>

text \<open>
  The time zone object of a \<open>datetime\<close>, as \<open>dateutil\<close> attaches it: UTC, the
  host's local zone, or a fixed offset in seconds. Two values are equal exactly when
  pandas takes the two zones for the same.
\<close>

datatype timezone = tzutc | tzlocal | tzoffset int

text \<open>
  A Python \<open>datetime\<close> as \<open>dateutil\<close> returns it: the wall-clock reading in
  microseconds (counted from midnight of day 0 of the calendar) and its \<open>tzinfo\<close>,
  \<open>None\<close> for a naive value. A calendar date is the number of its day.
\<close>

record datetime =
  wall_clock :: int
  tzinfo :: "timezone option"

type_synonym date = int

text \<open>
  One entry of the parsed feed. A key the feed omits is \<open>None\<close>; the nested
  \<open>source\<close> value is a dictionary of its own.
\<close>

record entry =
  published :: "string option"
  title :: "string option"
  link :: "string option"
  source :: "(string \<rightharpoonup> string) option"
  summary :: "string option"

text \<open>
  What \<open>feedparser.parse\<close> returns. \<open>bozo\<close> is set when the document could not
  be fetched or is not well formed: feedparser catches such a failure itself, reports
  it in the feed, and gives the entries it could still read (none, or those before
  the damage).
\<close>

record feed =
  bozo :: bool
  entries :: "entry list"

text \<open>The dictionary built for each entry in \<open>fetch_google_news_rss\<close>.\<close>

record article =
  Keyword :: string
  Title :: string
  URL :: string
  Published :: string
  Published_Date :: "datetime option"
  Source :: string
  Description :: string

text \<open>
  The libraries the collector calls. \<open>feedparser_parse url\<close> is \<open>Inl msg\<close> when
  \<open>feedparser.parse\<close> raises an \<open>Exception\<close> whose text is \<open>msg\<close>, and
  \<open>Inr f\<close> when it returns the feed \<open>f\<close>. \<open>date_parser_parse s\<close> is \<open>None\<close> when
  \<open>dateutil.parser.parse\<close> raises.
\<close>

record libs =
  quote_plus :: "string \<Rightarrow> string"
  feedparser_parse :: "string \<Rightarrow> string + feed"
  date_parser_parse :: "string \<Rightarrow> datetime option"

text \<open>What the run shows on the page, in the order it is emitted.\<close>

datatype ui_event =
  StError string
  | StatusText string
  | Progress nat nat
  | Sleep nat

definition KEYWORDS :: "string list" where
  "KEYWORDS =
     [''carbon measures'', ''scope 3 emissions'', ''exxon scope 3'',
      ''greenhouse gas protocol scope 3'', ''Amy Bracchio'', ''Karthik Ramanna'']"

subsection \<open>fetch_google_news_rss\<close>

definition dict_get :: "('k \<rightharpoonup> 'v) \<Rightarrow> 'k \<Rightarrow> 'v \<Rightarrow> 'v" where
  "dict_get d k dflt = (case d k of None \<Rightarrow> dflt | Some v \<Rightarrow> v)"

definition entry_get :: "'v option \<Rightarrow> 'v \<Rightarrow> 'v" where
  "entry_get field dflt = (case field of None \<Rightarrow> dflt | Some v \<Rightarrow> v)"

definition search_url :: "libs \<Rightarrow> string \<Rightarrow> string" where
  "search_url L keyword =
     ''https://news.google.com/rss/search?q='' @ quote_plus L keyword
       @ ''&hl=en-US&gl=US&ceid=US:en''"

text \<open>
  The inner \<open>try\<close>: the parser runs only on a non-empty text, and whatever it raises
  is swallowed, leaving \<open>published_date = None\<close>.
\<close>

definition parse_published :: "libs \<Rightarrow> string \<Rightarrow> datetime option" where
  "parse_published L published_str =
     (if published_str \<noteq> [] then date_parser_parse L published_str else None)"

definition make_article :: "libs \<Rightarrow> string \<Rightarrow> entry \<Rightarrow> article" where
  "make_article L keyword e =
     (let published_str = entry_get (published e) [];
          published_date = parse_published L published_str
      in \<lparr>Keyword = keyword,
          Title = entry_get (title e) [],
          URL = entry_get (link e) [],
          Published = published_str,
          Published_Date = published_date,
          Source = dict_get (entry_get (source e) Map.empty) ''title'' ''Unknown'',
          Description = entry_get (summary e) []\<rparr>)"

text \<open>The \<open>for entry in feed.entries\<close> loop, appending one article per entry.\<close>

fun entries_loop :: "libs \<Rightarrow> string \<Rightarrow> entry list \<Rightarrow> article list \<Rightarrow> article list" where
  "entries_loop L keyword [] articles = articles"
| "entries_loop L keyword (e # es) articles =
     entries_loop L keyword es (articles @ [make_article L keyword e])"

text \<open>
  The outer \<open>try\<close>: an exception of \<open>feedparser.parse\<close> is reported with
  \<open>st.error\<close> and the articles gathered so far (none) are returned. Of a feed that
  is returned only \<open>entries\<close> is read; \<open>bozo\<close> is never looked at.
\<close>

definition fetch_google_news_rss :: "libs \<Rightarrow> string \<Rightarrow> article list \<times> ui_event list" where
  "fetch_google_news_rss L keyword =
     (case feedparser_parse L (search_url L keyword) of
        Inr f \<Rightarrow> (entries_loop L keyword (entries f) [], [])
      | Inl e \<Rightarrow> ([], [StError (''Error fetching '' @ keyword @ '': '' @ e)]))"

subsection \<open>Tables\<close>

text \<open>
  A pandas \<open>DataFrame\<close>: its column labels in order and its rows. A row carries the
  seven article cells and the cell of the helper column \<open>Published_Date_Compare\<close>
  (a naive timestamp in microseconds, \<open>None\<close> for \<open>NaT\<close>), which counts only when
  the label is among \<open>columns\<close>.
\<close>

record row = article +
  Published_Date_Compare :: "int option"

record dataframe =
  columns :: "string list"
  rows :: "row list"

definition article_columns :: "string list" where
  "article_columns =
     [''Keyword'', ''Title'', ''URL'', ''Published'', ''Published_Date'', ''Source'',
      ''Description'']"

definition row_of :: "article \<Rightarrow> row" where
  "row_of a =
     \<lparr>Keyword = Keyword a, Title = Title a, URL = URL a, Published = Published a,
      Published_Date = Published_Date a, Source = Source a, Description = Description a,
      Published_Date_Compare = None\<rparr>"

text \<open>\<open>pd.DataFrame(list_of_dicts)\<close>: no columns at all when the list is empty.\<close>

definition DataFrame :: "article list \<Rightarrow> dataframe" where
  "DataFrame articles =
     \<lparr>columns = (if articles = [] then [] else article_columns),
      rows = map row_of articles\<rparr>"

definition df_empty :: "dataframe \<Rightarrow> bool" where
  "df_empty df = (columns df = [] \<or> rows df = [])"

text \<open>
  \<open>drop_duplicates(subset=['URL'], keep='first')\<close>: a row is dropped when an
  earlier row has its URL; \<open>seen\<close> holds the URLs met so far.
\<close>

fun keep_first :: "string list \<Rightarrow> row list \<Rightarrow> row list" where
  "keep_first seen [] = []"
| "keep_first seen (r # rs) =
     (if URL r \<in> set seen then keep_first seen rs
      else r # keep_first (URL r # seen) rs)"

definition drop_duplicates_URL :: "dataframe \<Rightarrow> dataframe" where
  "drop_duplicates_URL df = df\<lparr>rows := keep_first [] (rows df)\<rparr>"

subsection \<open>collect_all_feeds\<close>

text \<open>
  The loop over \<open>enumerate(KEYWORDS)\<close>: \<open>i\<close> is the index of the next keyword and
  \<open>total_keywords\<close> the length of the whole list. The progress value
  \<open>(i + 1) / total_keywords\<close> is kept as the pair of its numerator and denominator.
\<close>

fun collect_loop ::
  "libs \<Rightarrow> nat \<Rightarrow> nat \<Rightarrow> string list \<Rightarrow> article list \<Rightarrow> article list \<times> ui_event list" where
  "collect_loop L total_keywords i [] all_articles = (all_articles, [])"
| "collect_loop L total_keywords i (keyword # ks) all_articles =
     (let (articles, errs) = fetch_google_news_rss L keyword;
          (all_articles', evs) =
             collect_loop L total_keywords (i + 1) ks (all_articles @ articles)
      in (all_articles',
          [StatusText (''Fetching articles for: '' @ keyword)] @ errs
            @ [Progress (i + 1) total_keywords, Sleep 1] @ evs))"

definition collect_feeds :: "libs \<Rightarrow> string list \<Rightarrow> dataframe \<times> ui_event list" where
  "collect_feeds L keywords =
     (let (all_articles, evs) = collect_loop L (length keywords) 0 keywords [];
          df = DataFrame all_articles
      in (if \<not> df_empty df then drop_duplicates_URL df else df, evs))"

definition collect_all_feeds :: "libs \<Rightarrow> dataframe \<times> ui_event list" where
  "collect_all_feeds L = collect_feeds L KEYWORDS"

section \<open>Search and filter\<close>

subsection \<open>Values the filter compares\<close>

text \<open>
  \<open>pd.Timestamp(date)\<close> is midnight of the date, and a \<open>pd.Timedelta\<close> a
  duration: both in microseconds, the resolution of a Python \<open>datetime\<close>.
\<close>

definition Timestamp :: "date \<Rightarrow> int" where
  "Timestamp d = d * 86400000000"

definition Timedelta_days :: "int \<Rightarrow> int" where
  "Timedelta_days n = n * 86400000000"

definition Timedelta_seconds :: "int \<Rightarrow> int" where
  "Timedelta_seconds n = n * 1000000"

text \<open>\<open>tz_localize(None)\<close> drops the time zone and keeps the wall-clock reading.\<close>

definition tz_localize_None :: "datetime \<Rightarrow> int" where
  "tz_localize_None dt = wall_clock dt"

text \<open>A comparison with \<open>NaT\<close> is false.\<close>

definition ge_le :: "int option \<Rightarrow> int \<Rightarrow> int \<Rightarrow> bool" where
  "ge_le cell lo hi = (case cell of None \<Rightarrow> False | Some t \<Rightarrow> lo \<le> t \<and> t \<le> hi)"

subsection \<open>Regular expressions\<close>

text \<open>
  \<open>Series.str.contains(pat, case=False, na=False)\<close> keeps pandas' default
  \<open>regex=True\<close>: it compiles \<open>pat\<close> with \<open>re.IGNORECASE\<close> and searches every cell.
  The characters below are the ones \<open>re\<close> reads as operators. Strings are UTF-8: a
  character below 128 is an ASCII character, any other belongs to a letter beyond
  ASCII.

  One case is worked out here: a pattern of ordinary ASCII characters and dots,
  searched in a text that is all ASCII. There ignoring case is folding \<open>A\<close> to \<open>Z\<close>.
  The rest is left to \<open>re\<close>, a parameter of type \<open>py_re\<close>. \<open>compile_pattern pat\<close>
  stands for compiling a pattern that holds an operator or a character beyond ASCII:
  \<open>Inl msg\<close> when \<open>re.compile\<close> raises \<open>re.error\<close>, \<open>Inr p\<close> when it compiles,
  \<open>p s\<close> telling whether the search finds a match in \<open>s\<close>. \<open>search_plain pat s\<close>
  stands for the search of a pattern of the first kind in a text \<open>s\<close> that is not all
  ASCII, where the case folding of Unicode applies.
\<close>

record py_re =
  compile_pattern :: "string \<Rightarrow> string + (string \<Rightarrow> bool)"
  search_plain :: "string \<Rightarrow> string \<Rightarrow> bool"

definition re_operators :: "char list" where
  "re_operators =
     [CHR ''^'', CHR ''$'', CHR ''*'', CHR ''+'', CHR ''?'', CHR ''{'', CHR ''}'',
      CHR ''['', CHR '']'', CHR 0x5C, CHR ''|'', CHR ''('', CHR '')'']"

definition is_ascii :: "char \<Rightarrow> bool" where
  "is_ascii c = (of_char c < (128 :: nat))"

text \<open>The lower-case form of an ASCII character.\<close>

definition ascii_lower :: "char \<Rightarrow> char" where
  "ascii_lower c =
     (let n = of_char c :: nat in if 65 \<le> n \<and> n \<le> 90 then char_of (n + 32) else c)"

text \<open>
  On ASCII characters: a dot matches any character but a newline; another character
  matches itself in either case.
\<close>

definition atom_matches :: "char \<Rightarrow> char \<Rightarrow> bool" where
  "atom_matches p c =
     (if p = CHR ''.'' then c \<noteq> CHR 0x0A else ascii_lower p = ascii_lower c)"

fun match_here :: "string \<Rightarrow> string \<Rightarrow> bool" where
  "match_here [] s = True"
| "match_here (p # ps) [] = False"
| "match_here (p # ps) (c # cs) = (atom_matches p c \<and> match_here ps cs)"

fun re_search :: "string \<Rightarrow> string \<Rightarrow> bool" where
  "re_search pat [] = match_here pat []"
| "re_search pat (c # cs) = (match_here pat (c # cs) \<or> re_search pat cs)"

definition re_compile :: "py_re \<Rightarrow> string \<Rightarrow> string + (string \<Rightarrow> bool)" where
  "re_compile re pat =
     (if list_ex (\<lambda>c. c \<in> set re_operators \<or> \<not> is_ascii c) pat
      then compile_pattern re pat
      else Inr (\<lambda>s. if list_all is_ascii s then re_search pat s else search_plain re pat s))"

subsection \<open>Objects and references\<close>

text \<open>
  The tables live in a store, addressed by their position: a Python variable holds a
  reference. \<open>df.copy()\<close> and \<open>df[mask]\<close> make a new object; assigning a column
  changes the object in place.
\<close>

type_synonym heap = "dataframe list"
type_synonym ref = nat

text \<open>The exceptions the block can raise; the text of a \<open>ValueError\<close> is left out.\<close>

datatype exn = KeyError string | re_error string | ValueError

definition select_rows :: "(row \<Rightarrow> bool) \<Rightarrow> dataframe \<Rightarrow> dataframe" where
  "select_rows keep df = df\<lparr>rows := filter keep (rows df)\<rparr>"

text \<open>
  \<open>pd.to_datetime\<close> turns the cells of a column into one datetime column, which has
  one time zone or none. It can do so when any two dated cells agree in their
  \<open>tzinfo\<close>; a zone next to another zone, or an aware value next to a naive one, makes
  it raise \<open>ValueError\<close>.
\<close>

definition same_tzinfo :: "row list \<Rightarrow> bool" where
  "same_tzinfo rs =
     list_all
       (\<lambda>r1. list_all
               (\<lambda>r2. Published_Date r1 = None \<or> Published_Date r2 = None
                     \<or> map_option tzinfo (Published_Date r1)
                         = map_option tzinfo (Published_Date r2))
               rs)
       rs"

text \<open>
  \<open>df['Published_Date_Compare'] = pd.to_datetime(df['Published_Date']).dt.tz_localize(None)\<close>:
  the right-hand side is computed first and may raise; then a new label goes last, an
  existing one keeps its place.
\<close>

definition assign_compare :: "dataframe \<Rightarrow> exn + dataframe" where
  "assign_compare df =
     (if same_tzinfo (rows df) then
        Inr \<lparr>columns =
               (if ''Published_Date_Compare'' \<in> set (columns df) then columns df
                else columns df @ [''Published_Date_Compare'']),
             rows =
               map (\<lambda>r. r\<lparr>Published_Date_Compare :=
                              map_option tz_localize_None (Published_Date r)\<rparr>)
                 (rows df)\<rparr>
      else Inl ValueError)"

definition df_copy :: "heap \<Rightarrow> ref \<Rightarrow> heap \<times> ref" where
  "df_copy h a = (h @ [h ! a], length h)"

definition getitem_mask :: "(row \<Rightarrow> bool) \<Rightarrow> heap \<Rightarrow> ref \<Rightarrow> heap \<times> ref" where
  "getitem_mask keep h a = (h @ [select_rows keep (h ! a)], length h)"

definition setitem_compare :: "heap \<Rightarrow> ref \<Rightarrow> exn + heap" where
  "setitem_compare h a =
     (case assign_compare (h ! a) of Inl e \<Rightarrow> Inl e | Inr df \<Rightarrow> Inr (h[a := df]))"

subsection \<open>The filter block of main\<close>

text \<open>The widgets' values when the block runs.\<close>

record criteria =
  search_term :: string
  start_date :: date
  end_date :: date
  selected_keywords :: "string list"
  selected_sources :: "string list"

definition date_mask :: "int \<Rightarrow> int \<Rightarrow> row \<Rightarrow> bool" where
  "date_mask start_datetime end_datetime r =
     (Published_Date r = None
      \<or> ge_le (Published_Date_Compare r) start_datetime end_datetime)"

definition date_filter :: "criteria \<Rightarrow> heap \<Rightarrow> ref \<Rightarrow> heap \<times> (exn + ref)" where
  "date_filter c h filtered_df =
     (if ''Published_Date'' \<in> set (columns (h ! filtered_df)) then
        (let start_datetime = Timestamp (start_date c);
             end_datetime =
               Timestamp (end_date c) + Timedelta_days 1 - Timedelta_seconds 1
         in if list_ex (\<lambda>r. Published_Date r \<noteq> None) (rows (h ! filtered_df))
            then (case setitem_compare h filtered_df of
                    Inl e \<Rightarrow> (h, Inl e)
                  | Inr h1 \<Rightarrow>
                      map_prod id Inr
                        (getitem_mask (date_mask start_datetime end_datetime) h1 filtered_df))
            else map_prod id Inr
                   (getitem_mask (\<lambda>r. Published_Date r = None) h filtered_df))
      else (h, Inr filtered_df))"

definition search_filter :: "py_re \<Rightarrow> criteria \<Rightarrow> heap \<Rightarrow> ref \<Rightarrow> heap \<times> (exn + ref)" where
  "search_filter re c h filtered_df =
     (if search_term c \<noteq> [] then
        (if ''Title'' \<notin> set (columns (h ! filtered_df)) then (h, Inl (KeyError ''Title''))
         else case re_compile re (search_term c) of
           Inl msg \<Rightarrow> (h, Inl (re_error msg))
         | Inr p \<Rightarrow>
             (if ''Description'' \<notin> set (columns (h ! filtered_df))
              then (h, Inl (KeyError ''Description''))
              else map_prod id Inr
                     (getitem_mask (\<lambda>r. p (Title r) \<or> p (Description r)) h filtered_df)))
      else (h, Inr filtered_df))"

definition keyword_filter :: "criteria \<Rightarrow> heap \<Rightarrow> ref \<Rightarrow> heap \<times> (exn + ref)" where
  "keyword_filter c h filtered_df =
     (if selected_keywords c \<noteq> [] then
        (if ''Keyword'' \<notin> set (columns (h ! filtered_df)) then (h, Inl (KeyError ''Keyword''))
         else map_prod id Inr
                (getitem_mask (\<lambda>r. Keyword r \<in> set (selected_keywords c)) h filtered_df))
      else (h, Inr filtered_df))"

definition source_filter :: "criteria \<Rightarrow> heap \<Rightarrow> ref \<Rightarrow> heap \<times> (exn + ref)" where
  "source_filter c h filtered_df =
     (if selected_sources c \<noteq> [] then
        (if ''Source'' \<notin> set (columns (h ! filtered_df)) then (h, Inl (KeyError ''Source''))
         else map_prod id Inr
                (getitem_mask (\<lambda>r. Source r \<in> set (selected_sources c)) h filtered_df))
      else (h, Inr filtered_df))"

text \<open>
  The block from \<open>filtered_df = df.copy()\<close> to the source filter: \<open>df\<close> is the
  reference held in the session state, the result the final store and either the
  exception raised or the reference in \<open>filtered_df\<close>.
\<close>

definition apply_filters :: "py_re \<Rightarrow> criteria \<Rightarrow> heap \<Rightarrow> ref \<Rightarrow> heap \<times> (exn + ref)" where
  "apply_filters re c h df =
     (let (h1, filtered_df1) = df_copy h df
      in case date_filter c h1 filtered_df1 of
           (h2, Inl e) \<Rightarrow> (h2, Inl e)
         | (h2, Inr filtered_df2) \<Rightarrow>
             (case search_filter re c h2 filtered_df2 of
                (h3, Inl e) \<Rightarrow> (h3, Inl e)
              | (h3, Inr filtered_df3) \<Rightarrow>
                  (case keyword_filter c h3 filtered_df3 of
                     (h4, Inl e) \<Rightarrow> (h4, Inl e)
                   | (h4, Inr filtered_df4) \<Rightarrow> source_filter c h4 filtered_df4)))"

text \<open>The table the block leaves in \<open>filtered_df\<close> when it is run on a table alone in the store.\<close>

definition filter_table :: "py_re \<Rightarrow> criteria \<Rightarrow> dataframe \<Rightarrow> exn + dataframe" where
  "filter_table re c df =
     (case apply_filters re c [df] 0 of
        (h, Inl e) \<Rightarrow> Inl e
      | (h, Inr filtered_df) \<Rightarrow> Inr (h ! filtered_df))"

subsection \<open>The stages as functions of the table\<close>

text \<open>
  What each stage leaves in \<open>filtered_df\<close>, as a function of the table it finds there;
  the lemmas \<open>date_filter_run\<close> to \<open>filter_table_stages\<close> below relate them to the
  run on the store.
\<close>

definition date_stage :: "criteria \<Rightarrow> dataframe \<Rightarrow> exn + dataframe" where
  "date_stage c df =
     (if ''Published_Date'' \<in> set (columns df) then
        (if list_ex (\<lambda>r. Published_Date r \<noteq> None) (rows df)
         then (case assign_compare df of
                 Inl e \<Rightarrow> Inl e
               | Inr df1 \<Rightarrow>
                   Inr (select_rows
                          (date_mask (Timestamp (start_date c))
                             (Timestamp (end_date c) + Timedelta_days 1 - Timedelta_seconds 1))
                          df1))
         else Inr (select_rows (\<lambda>r. Published_Date r = None) df))
      else Inr df)"

definition search_stage :: "py_re \<Rightarrow> criteria \<Rightarrow> dataframe \<Rightarrow> exn + dataframe" where
  "search_stage re c df =
     (if search_term c \<noteq> [] then
        (if ''Title'' \<notin> set (columns df) then Inl (KeyError ''Title'')
         else case re_compile re (search_term c) of
           Inl msg \<Rightarrow> Inl (re_error msg)
         | Inr p \<Rightarrow>
             (if ''Description'' \<notin> set (columns df) then Inl (KeyError ''Description'')
              else Inr (select_rows (\<lambda>r. p (Title r) \<or> p (Description r)) df)))
      else Inr df)"

definition keyword_stage :: "criteria \<Rightarrow> dataframe \<Rightarrow> exn + dataframe" where
  "keyword_stage c df =
     (if selected_keywords c \<noteq> [] then
        (if ''Keyword'' \<notin> set (columns df) then Inl (KeyError ''Keyword'')
         else Inr (select_rows (\<lambda>r. Keyword r \<in> set (selected_keywords c)) df))
      else Inr df)"

definition source_stage :: "criteria \<Rightarrow> dataframe \<Rightarrow> exn + dataframe" where
  "source_stage c df =
     (if selected_sources c \<noteq> [] then
        (if ''Source'' \<notin> set (columns df) then Inl (KeyError ''Source'')
         else Inr (select_rows (\<lambda>r. Source r \<in> set (selected_sources c)) df))
      else Inr df)"

text \<open>The four stages in a row; an exception of one ends the block.\<close>

definition filter_stages :: "py_re \<Rightarrow> criteria \<Rightarrow> dataframe \<Rightarrow> exn + dataframe" where
  "filter_stages re c df =
     (case date_stage c df of
        Inl e \<Rightarrow> Inl e
      | Inr d1 \<Rightarrow>
          (case search_stage re c d1 of
             Inl e \<Rightarrow> Inl e
           | Inr d2 \<Rightarrow>
               (case keyword_stage c d2 of
                  Inl e \<Rightarrow> Inl e
                | Inr d3 \<Rightarrow> source_stage c d3)))"

text \<open>The article a row holds, without the helper cell.\<close>

definition article_of :: "row \<Rightarrow> article" where
  "article_of r =
     \<lparr>Keyword = Keyword r, Title = Title r, URL = URL r, Published = Published r,
      Published_Date = Published_Date r, Source = Source r, Description = Description r\<rparr>"

text \<open>
  A table is settled for a date range when the date stage has nothing left to do on it:
  every row passes the date mask and, unless no row has a date, the dated rows agree
  in their time zone and the helper column is in place.
\<close>

definition settled :: "criteria \<Rightarrow> dataframe \<Rightarrow> bool" where
  "settled c df =
     (''Published_Date'' \<in> set (columns df) \<longrightarrow>
        list_all
          (date_mask (Timestamp (start_date c))
             (Timestamp (end_date c) + Timedelta_days 1 - Timedelta_seconds 1))
          (rows df)
        \<and> (list_all (\<lambda>r. Published_Date r = None) (rows df)
           \<or> (same_tzinfo (rows df)
              \<and> ''Published_Date_Compare'' \<in> set (columns df)
              \<and> list_all
                  (\<lambda>r. Published_Date_Compare r
                         = map_option tz_localize_None (Published_Date r))
                  (rows df))))"

subsection \<open>Exports\<close>

text \<open>
  \<open>to_csv(index=False)\<close> writes the column labels as the header and one record per
  row; \<open>to_json(orient='records')\<close> writes one object per row, keyed by the column
  labels. Both are kept as the cells they write, before formatting and quoting.
\<close>

datatype cell = Text string | Stamp datetime | Naive int | Missing

definition cell_of :: "row \<Rightarrow> string \<Rightarrow> cell" where
  "cell_of r label =
     (if label = ''Keyword'' then Text (Keyword r)
      else if label = ''Title'' then Text (Title r)
      else if label = ''URL'' then Text (URL r)
      else if label = ''Published'' then Text (Published r)
      else if label = ''Published_Date'' then
        (case Published_Date r of None \<Rightarrow> Missing | Some dt \<Rightarrow> Stamp dt)
      else if label = ''Source'' then Text (Source r)
      else if label = ''Description'' then Text (Description r)
      else if label = ''Published_Date_Compare'' then
        (case Published_Date_Compare r of None \<Rightarrow> Missing | Some t \<Rightarrow> Naive t)
      else Missing)"

record csv =
  csv_header :: "string list"
  csv_records :: "cell list list"

definition to_csv :: "dataframe \<Rightarrow> csv" where
  "to_csv df =
     \<lparr>csv_header = columns df,
      csv_records = map (\<lambda>r. map (cell_of r) (columns df)) (rows df)\<rparr>"

definition to_json :: "dataframe \<Rightarrow> (string \<times> cell) list list" where
  "to_json df = map (\<lambda>r. map (\<lambda>label. (label, cell_of r label)) (columns df)) (rows df)"

text \<open>
  The downloads \<open>main\<close> offers: the collection's CSV and JSON when the collected table
  is not empty, and the filtered CSV when the filter leaves at least one row.
\<close>

definition collection_downloads ::
  "dataframe \<Rightarrow> (csv \<times> (string \<times> cell) list list) option" where
  "collection_downloads df = (if df_empty df then None else Some (to_csv df, to_json df))"

definition filtered_download :: "py_re \<Rightarrow> criteria \<Rightarrow> dataframe \<Rightarrow> exn + csv option" where
  "filtered_download re c df =
     (case filter_table re c df of
        Inl e \<Rightarrow> Inl e
      | Inr filtered_df \<Rightarrow>
          Inr (if length (rows filtered_df) > 0 then Some (to_csv filtered_df) else None))"

subsection \<open>The search as the specification words it\<close>

text \<open>
  The specification's search, on ASCII text: the text occurs in the title or in the
  description, the letters \<open>A\<close> to \<open>Z\<close> compared without regard to case.
\<close>

fun starts_with_ci :: "string \<Rightarrow> string \<Rightarrow> bool" where
  "starts_with_ci [] s = True"
| "starts_with_ci (p # ps) [] = False"
| "starts_with_ci (p # ps) (c # cs) = (ascii_lower p = ascii_lower c \<and> starts_with_ci ps cs)"

fun spec_substring_ci :: "string \<Rightarrow> string \<Rightarrow> bool" where
  "spec_substring_ci t [] = starts_with_ci t []"
| "spec_substring_ci t (c # cs) = (starts_with_ci t (c # cs) \<or> spec_substring_ci t cs)"

definition spec_search_match :: "string \<Rightarrow> row \<Rightarrow> bool" where
  "spec_search_match t r = (spec_substring_ci t (Title r) \<or> spec_substring_ci t (Description r))"

subsection \<open>Sample feeds and tables\<close>

definition entry_u1 :: entry where
  "entry_u1 =
     \<lparr>published = Some ''Mon, 01 Jan 2024 08:00:00 GMT'',
      title = Some ''Scope 3 emissions rise'',
      link = Some ''u1'',
      source = Some [''title'' \<mapsto> ''Reuters''],
      summary = Some ''Companies report''\<rparr>"

definition entry_u2 :: entry where
  "entry_u2 =
     \<lparr>published = Some ''next week'', title = Some ''Carbon accounting'',
      link = Some ''u2'', source = None, summary = None\<rparr>"

text \<open>
  08:00:00 on 1 January 2024 (day 738886), in GMT; the sample date parser reads this
  one text and raises on any other.
\<close>

definition sample_datetime :: datetime where
  "sample_datetime = \<lparr>wall_clock = 63839779200000000, tzinfo = Some tzutc\<rparr>"

definition sample_date_parser :: "string \<Rightarrow> datetime option" where
  "sample_date_parser s =
     (if s = ''Mon, 01 Jan 2024 08:00:00 GMT'' then Some sample_datetime else None)"

text \<open>Keyword \<open>a\<close> yields one entry for \<open>u1\<close>; keyword \<open>b\<close> yields \<open>u1\<close> and \<open>u2\<close>.\<close>

definition sample_libs :: libs where
  "sample_libs =
     \<lparr>quote_plus = (\<lambda>s. s),
      feedparser_parse =
        (\<lambda>url.
           if url = ''https://news.google.com/rss/search?q=a&hl=en-US&gl=US&ceid=US:en''
           then Inr \<lparr>bozo = False, entries = [entry_u1]\<rparr>
           else if url = ''https://news.google.com/rss/search?q=b&hl=en-US&gl=US&ceid=US:en''
           then Inr \<lparr>bozo = False, entries = [entry_u1, entry_u2]\<rparr>
           else Inr \<lparr>bozo = False, entries = []\<rparr>),
      date_parser_parse = sample_date_parser\<rparr>"



text \<open>
  A table of three articles: one dated 08:00:00 on 1 January 2024, one without a date,
  and one dated 23:59:59.5 on 2 January 2024 (day 738887).
\<close>

definition article_dated :: article where
  "article_dated =
     \<lparr>Keyword = ''scope 3 emissions'', Title = ''Scope 3 emissions rise'', URL = ''u1'',
      Published = ''Mon, 01 Jan 2024 08:00:00 GMT'', Published_Date = Some sample_datetime,
      Source = ''Reuters'', Description = ''Companies report''\<rparr>"

definition article_undated :: article where
  "article_undated =
     \<lparr>Keyword = ''carbon measures'', Title = ''Carbon accounting'', URL = ''u2'',
      Published = ''next week'', Published_Date = None,
      Source = ''Unknown'', Description = []\<rparr>"

definition article_late :: article where
  "article_late =
     \<lparr>Keyword = ''carbon measures'', Title = ''Late edition'', URL = ''u3'',
      Published = ''2024-01-02T23:59:59.5Z'',
      Published_Date = Some \<lparr>wall_clock = 63839923199500000, tzinfo = Some tzutc\<rparr>,
      Source = ''AP'', Description = ''abc''\<rparr>"

definition sample_table :: dataframe where
  "sample_table = DataFrame [article_dated, article_undated, article_late]"

definition sample_criteria :: criteria where
  "sample_criteria =
     \<lparr>search_term = [], start_date = 738886, end_date = 738887,
      selected_keywords = [], selected_sources = []\<rparr>"

text \<open>
  What the date filter leaves of the sample table for the sample criteria: the helper
  column added, the third article gone.
\<close>

definition sample_filtered :: dataframe where
  "sample_filtered =
     \<lparr>columns = article_columns @ [''Published_Date_Compare''],
      rows = [(row_of article_dated)\<lparr>Published_Date_Compare := Some 63839779200000000\<rparr>,
              row_of article_undated]\<rparr>"

text \<open>The sample table with the helper column assigned, no row dropped.\<close>

definition sample_with_helper :: dataframe where
  "sample_with_helper =
     \<lparr>columns = article_columns @ [''Published_Date_Compare''],
      rows = [(row_of article_dated)\<lparr>Published_Date_Compare := Some 63839779200000000\<rparr>,
              row_of article_undated,
              (row_of article_late)\<lparr>Published_Date_Compare := Some 63839923199500000\<rparr>]\<rparr>"



text \<open>
  A regular-expression library that rejects every pattern handed to it and finds
  nothing in a text beyond ASCII.
\<close>

definition rejecting_re :: py_re where
  "rejecting_re =
     \<lparr>compile_pattern = (\<lambda>pat. Inl ''unsupported pattern''),
      search_plain = (\<lambda>pat s. False)\<rparr>"

section \<open>Collection: one record per URL\<close>

lemma entries_loop_map:
  "entries_loop L keyword es articles = articles @ map (make_article L keyword) es"
  by (induction es arbitrary: articles) simp_all

lemma fetch_Inr:
  "feedparser_parse L (search_url L keyword) = Inr f \<Longrightarrow>
   fetch_google_news_rss L keyword = (map (make_article L keyword) (entries f), [])"
  by (simp add: fetch_google_news_rss_def entries_loop_map)

lemma collect_loop_articles:
  "fst (collect_loop L n i ks acc)
     = acc @ concat (map (\<lambda>k. fst (fetch_google_news_rss L k)) ks)"
  by (induction ks arbitrary: i acc) (simp_all add: split_beta Let_def)

lemma keep_first_seen: "r \<in> set (keep_first seen rs) \<Longrightarrow> URL r \<notin> set seen"
proof (induction rs arbitrary: seen)
  case Nil
  then show ?case by simp
next
  case (Cons x rs)
  show ?case
  proof (cases "URL x \<in> set seen")
    case True
    with Cons show ?thesis by simp
  next
    case False
    with Cons.prems have "r = x \<or> r \<in> set (keep_first (URL x # seen) rs)" by simp
    then show ?thesis
    proof
      assume "r = x" with False show ?thesis by simp
    next
      assume "r \<in> set (keep_first (URL x # seen) rs)"
      from Cons.IH [OF this] show ?thesis by simp
    qed
  qed
qed

lemma keep_first_distinct: "distinct (map URL (keep_first seen rs))"
proof (induction rs arbitrary: seen)
  case Nil
  show ?case by simp
next
  case (Cons r rs)
  have "URL r \<notin> set (map URL (keep_first (URL r # seen) rs))"
    using keep_first_seen [of _ "URL r # seen" rs] by fastforce
  with Cons show ?case by simp
qed

lemma keep_first_subseq: "subseq (keep_first seen rs) rs"
  by (induction rs arbitrary: seen) auto

lemma keep_first_filter_seen:
  "u \<in> set seen \<Longrightarrow> filter (\<lambda>r. URL r = u) (keep_first seen rs) = []"
  using keep_first_seen [of _ seen rs] by (auto simp: filter_empty_conv)

lemma keep_first_filter:
  "u \<notin> set seen \<Longrightarrow>
   filter (\<lambda>r. URL r = u) (keep_first seen rs)
     = (case find (\<lambda>r. URL r = u) rs of None \<Rightarrow> [] | Some r \<Rightarrow> [r])"
  by (induction rs arbitrary: seen) (auto simp: keep_first_filter_seen)

lemma find_map_row_of:
  "find (\<lambda>r. URL r = u) (map row_of as) = map_option row_of (find (\<lambda>a. URL a = u) as)"
  by (induction as) (auto simp: row_of_def)

lemma rows_collect_feeds:
  "rows (fst (collect_feeds L ks))
     = keep_first [] (map row_of (concat (map (\<lambda>k. fst (fetch_google_news_rss L k)) ks)))"
proof -
  obtain all_articles evs
    where c: "collect_loop L (length ks) 0 ks [] = (all_articles, evs)"
    by (cases "collect_loop L (length ks) 0 ks []")
  have a: "all_articles = concat (map (\<lambda>k. fst (fetch_google_news_rss L k)) ks)"
    using collect_loop_articles [of L "length ks" 0 ks "[]"] c by simp
  show ?thesis
    by (cases "all_articles = []")
      (simp_all add: collect_feeds_def c a [symmetric] DataFrame_def df_empty_def
        drop_duplicates_URL_def article_columns_def)
qed

lemma sample_fetch_a:
  "fetch_google_news_rss sample_libs ''a'' = ([make_article sample_libs ''a'' entry_u1], [])"
  by (simp add: fetch_google_news_rss_def search_url_def sample_libs_def)

lemma sample_fetch_b:
  "fetch_google_news_rss sample_libs ''b''
     = ([make_article sample_libs ''b'' entry_u1, make_article sample_libs ''b'' entry_u2], [])"
  by (simp add: fetch_google_news_rss_def search_url_def sample_libs_def)

lemma sample_collect_rows:
  "rows (fst (collect_feeds sample_libs [''a'', ''b'']))
     = [row_of (make_article sample_libs ''a'' entry_u1),
        row_of (make_article sample_libs ''b'' entry_u2)]"
  by (simp add: rows_collect_feeds sample_fetch_a sample_fetch_b row_of_def make_article_def
      entry_get_def entry_u1_def entry_u2_def Let_def)

text \<open>
  C1. For every sequence of keywords, the table \<open>collect_feeds\<close> returns has no two
  rows with the same URL. Its rows are a subsequence of the concatenated fetch results
  (keyword order, feed order within a keyword), and for every URL \<open>u\<close> the rows with
  that URL are exactly one, the first fetched record with it, when some fetched record
  has it, and none otherwise.
\<close>

theorem collect_keeps_first_per_url:
  "distinct (map URL (rows (fst (collect_feeds L ks))))
   \<and> subseq (rows (fst (collect_feeds L ks)))
       (map row_of (concat (map (\<lambda>k. fst (fetch_google_news_rss L k)) ks)))
   \<and> filter (\<lambda>r. URL r = u) (rows (fst (collect_feeds L ks)))
       = (case find (\<lambda>a. URL a = u)
                 (concat (map (\<lambda>k. fst (fetch_google_news_rss L k)) ks)) of
            None \<Rightarrow> []
          | Some a \<Rightarrow> [row_of a])"
proof -
  let ?all = "concat (map (\<lambda>k. fst (fetch_google_news_rss L k)) ks)"
  have "filter (\<lambda>r. URL r = u) (keep_first [] (map row_of ?all))
        = (case find (\<lambda>r. URL r = u) (map row_of ?all) of None \<Rightarrow> [] | Some r \<Rightarrow> [r])"
    by (rule keep_first_filter) simp
  also have "\<dots> = (case find (\<lambda>a. URL a = u) ?all of None \<Rightarrow> [] | Some a \<Rightarrow> [row_of a])"
    by (simp add: find_map_row_of split: option.split)
  finally show ?thesis
    by (simp add: rows_collect_feeds keep_first_distinct keep_first_subseq)
qed

text \<open>
  The specification's scenario: keyword \<open>a\<close> yields \<open>u1\<close>, keyword \<open>b\<close> yields \<open>u1\<close>
  and \<open>u2\<close>; the table holds \<open>u1\<close> under \<open>a\<close> and \<open>u2\<close> under \<open>b\<close>.
\<close>

theorem collect_keeps_first_per_url_witness:
  "map (\<lambda>r. (URL r, Keyword r)) (rows (fst (collect_feeds sample_libs [''a'', ''b''])))
     = [(''u1'', ''a''), (''u2'', ''b'')]
   \<and> distinct (map URL (rows (fst (collect_feeds sample_libs [''a'', ''b'']))))
   \<and> filter (\<lambda>r. URL r = ''u1'') (rows (fst (collect_feeds sample_libs [''a'', ''b''])))
       = [row_of (make_article sample_libs ''a'' entry_u1)]"
  using collect_keeps_first_per_url [of sample_libs "[''a'', ''b'']" "''u1''"]
  by (simp add: sample_collect_rows row_of_def make_article_def entry_get_def entry_u1_def
      entry_u2_def Let_def)

section \<open>Fetch failures and unparsable dates\<close>







text \<open>
  C10. When the feed is read, every entry gives one record, in feed order. For an entry
  whose publication text is empty or missing, or on which the date parser raises, the
  record has \<open>Published_Date = None\<close> and every other field filled from the entry
  (with the defaults of \<open>get\<close>).
\<close>

theorem unparsable_date_keeps_record:
  assumes "feedparser_parse L (search_url L keyword) = Inr f"
    and "i < length (entries f)"
    and "entry_get (published (entries f ! i)) [] = []
         \<or> date_parser_parse L (entry_get (published (entries f ! i)) []) = None"
  shows "length (fst (fetch_google_news_rss L keyword)) = length (entries f)
         \<and> fst (fetch_google_news_rss L keyword) ! i
             = \<lparr>Keyword = keyword,
                Title = entry_get (title (entries f ! i)) [],
                URL = entry_get (link (entries f ! i)) [],
                Published = entry_get (published (entries f ! i)) [],
                Published_Date = None,
                Source = dict_get (entry_get (source (entries f ! i)) Map.empty)
                           ''title'' ''Unknown'',
                Description = entry_get (summary (entries f ! i)) []\<rparr>"
proof -
  have "parse_published L (entry_get (published (entries f ! i)) []) = None"
    using assms(3) by (auto simp: parse_published_def)
  then have "make_article L keyword (entries f ! i)
      = \<lparr>Keyword = keyword,
         Title = entry_get (title (entries f ! i)) [],
         URL = entry_get (link (entries f ! i)) [],
         Published = entry_get (published (entries f ! i)) [],
         Published_Date = None,
         Source = dict_get (entry_get (source (entries f ! i)) Map.empty) ''title'' ''Unknown'',
         Description = entry_get (summary (entries f ! i)) []\<rparr>"
    by (simp add: make_article_def Let_def)
  with assms(2) show ?thesis
    by (simp add: fetch_Inr [OF assms(1)])
qed

lemma sample_feed_b:
  "feedparser_parse sample_libs (search_url sample_libs ''b'')
     = Inr \<lparr>bozo = False, entries = [entry_u1, entry_u2]\<rparr>"
  by (simp add: search_url_def sample_libs_def)

text \<open>
  In the sample feed of \<open>b\<close> the second entry is dated \<open>next week\<close>, which the
  sample parser rejects, and has neither source nor summary.
\<close>

theorem unparsable_date_keeps_record_witness:
  "length (fst (fetch_google_news_rss sample_libs ''b'')) = 2
   \<and> fst (fetch_google_news_rss sample_libs ''b'') ! 1
       = \<lparr>Keyword = ''b'', Title = ''Carbon accounting'', URL = ''u2'',
          Published = ''next week'', Published_Date = None, Source = ''Unknown'',
          Description = []\<rparr>"
proof -
  have d: "entry_get (published (entries \<lparr>bozo = False, entries = [entry_u1, entry_u2]\<rparr> ! 1)) []
             = []
           \<or> date_parser_parse sample_libs
               (entry_get (published (entries \<lparr>bozo = False, entries = [entry_u1, entry_u2]\<rparr> ! 1))
                  [])
               = None"
    by (simp add: entry_get_def entry_u2_def sample_libs_def sample_date_parser_def)
  have i: "1 < length (entries \<lparr>bozo = False, entries = [entry_u1, entry_u2]\<rparr>)" by simp
  show ?thesis
    using unparsable_date_keeps_record [OF sample_feed_b i d]
    by (simp add: entry_get_def dict_get_def entry_u2_def)
qed

section \<open>The filter block on the store\<close>

lemma date_filter_run:
  assumes "a < length h"
  shows "case date_filter c h a of
           (h', Inl e) \<Rightarrow> h' = h \<and> date_stage c (h ! a) = Inl e
         | (h', Inr r) \<Rightarrow> r < length h' \<and> date_stage c (h ! a) = Inr (h' ! r)"
  using assms
  by (simp add: date_filter_def date_stage_def getitem_mask_def setitem_compare_def Let_def
      nth_append split: sum.split)

lemma date_filter_frame:
  assumes "n \<le> a" and "a < length h"
  shows "take n (fst (date_filter c h a)) = take n h"
  using assms
  by (simp add: date_filter_def getitem_mask_def setitem_compare_def Let_def
      split: sum.split)

lemma search_filter_run:
  assumes "a < length h"
  shows "case search_filter re c h a of
           (h', Inl e) \<Rightarrow> search_stage re c (h ! a) = Inl e
         | (h', Inr r) \<Rightarrow> r < length h' \<and> search_stage re c (h ! a) = Inr (h' ! r)"
  using assms
  by (simp add: search_filter_def search_stage_def getitem_mask_def nth_append
      split: sum.split)

lemma search_filter_frame:
  "n \<le> length h \<Longrightarrow> take n (fst (search_filter re c h a)) = take n h"
  by (simp add: search_filter_def getitem_mask_def split: sum.split)

lemma keyword_filter_run:
  assumes "a < length h"
  shows "case keyword_filter c h a of
           (h', Inl e) \<Rightarrow> keyword_stage c (h ! a) = Inl e
         | (h', Inr r) \<Rightarrow> r < length h' \<and> keyword_stage c (h ! a) = Inr (h' ! r)"
  using assms
  by (simp add: keyword_filter_def keyword_stage_def getitem_mask_def nth_append)

lemma keyword_filter_frame:
  "n \<le> length h \<Longrightarrow> take n (fst (keyword_filter c h a)) = take n h"
  by (simp add: keyword_filter_def getitem_mask_def)

lemma source_filter_run:
  assumes "a < length h"
  shows "case source_filter c h a of
           (h', Inl e) \<Rightarrow> source_stage c (h ! a) = Inl e
         | (h', Inr r) \<Rightarrow> r < length h' \<and> source_stage c (h ! a) = Inr (h' ! r)"
  using assms
  by (simp add: source_filter_def source_stage_def getitem_mask_def nth_append)

lemma source_filter_frame:
  "n \<le> length h \<Longrightarrow> take n (fst (source_filter c h a)) = take n h"
  by (simp add: source_filter_def getitem_mask_def)

lemma date_filter_length: "length h \<le> length (fst (date_filter c h a))"
  by (simp add: date_filter_def getitem_mask_def setitem_compare_def Let_def
      split: sum.split)

lemma search_filter_length: "length h \<le> length (fst (search_filter re c h a))"
  by (simp add: search_filter_def getitem_mask_def split: sum.split)

lemma keyword_filter_length: "length h \<le> length (fst (keyword_filter c h a))"
  by (simp add: keyword_filter_def getitem_mask_def)

text \<open>
  The run of the whole block: the store it leaves, and its result in terms of the
  stages on tables.
\<close>

lemma apply_filters_run:
  assumes "df < length h"
  shows "take (length h) (fst (apply_filters re c h df)) = h
         \<and> (case snd (apply_filters re c h df) of
              Inl e \<Rightarrow> filter_stages re c (h ! df) = Inl e
            | Inr r \<Rightarrow>
                r < length (fst (apply_filters re c h df))
                \<and> filter_stages re c (h ! df) = Inr (fst (apply_filters re c h df) ! r))"
proof -
  let ?h1 = "h @ [h ! df]"
  let ?a1 = "length h"
  have cp: "df_copy h df = (?h1, ?a1)" by (simp add: df_copy_def)
  obtain h2 r2 where d: "date_filter c ?h1 ?a1 = (h2, r2)"
    by (cases "date_filter c ?h1 ?a1")
  have a1: "?a1 < length ?h1" by simp
  from date_filter_frame [of "length h" ?a1 ?h1 c] d
  have f2: "take (length h) h2 = h" by simp
  from date_filter_length [of ?h1 c ?a1] d have l2: "length h \<le> length h2" by simp
  show ?thesis
  proof (cases r2)
    case (Inl e)
    with date_filter_run [OF a1, of c] d
    have "date_stage c (h ! df) = Inl e" by simp
    with Inl d cp f2 show ?thesis
      by (simp add: apply_filters_def filter_stages_def)
  next
    case r2: (Inr a2)
    with date_filter_run [OF a1, of c] d
    have a2: "a2 < length h2" and v2: "date_stage c (h ! df) = Inr (h2 ! a2)"
      by simp_all
    obtain h3 r3 where s: "search_filter re c h2 a2 = (h3, r3)"
      by (cases "search_filter re c h2 a2")
    from search_filter_frame [of "length h" h2 re c a2] s l2 f2
    have f3: "take (length h) h3 = h" by simp
    from search_filter_length [of h2 re c a2] s l2 have l3: "length h \<le> length h3" by simp
    show ?thesis
    proof (cases r3)
      case (Inl e)
      with search_filter_run [OF a2, of re c] s
      have "search_stage re c (h2 ! a2) = Inl e" by simp
      with Inl r2 s d cp f3 v2 show ?thesis
        by (simp add: apply_filters_def filter_stages_def)
    next
      case r3: (Inr a3)
      with search_filter_run [OF a2, of re c] s
      have a3: "a3 < length h3" and v3: "search_stage re c (h2 ! a2) = Inr (h3 ! a3)"
        by simp_all
      obtain h4 r4 where k: "keyword_filter c h3 a3 = (h4, r4)"
        by (cases "keyword_filter c h3 a3")
      from keyword_filter_frame [of "length h" h3 c a3] k l3 f3
      have f4: "take (length h) h4 = h" by simp
      from keyword_filter_length [of h3 c a3] k l3 have l4: "length h \<le> length h4" by simp
      show ?thesis
      proof (cases r4)
        case (Inl e)
        with keyword_filter_run [OF a3, of c] k
        have "keyword_stage c (h3 ! a3) = Inl e" by simp
        with Inl r2 r3 s d cp k f4 v2 v3 show ?thesis
          by (simp add: apply_filters_def filter_stages_def)
      next
        case r4: (Inr a4)
        with keyword_filter_run [OF a3, of c] k
        have a4: "a4 < length h4" and v4: "keyword_stage c (h3 ! a3) = Inr (h4 ! a4)"
          by simp_all
        obtain h5 r5 where sr: "source_filter c h4 a4 = (h5, r5)"
          by (cases "source_filter c h4 a4")
        from source_filter_frame [of "length h" h4 c a4] sr l4 f4
        have f5: "take (length h) h5 = h" by simp
        have ap: "apply_filters re c h df = (h5, r5)"
          using cp d r2 s r3 k r4 sr by (simp add: apply_filters_def)
        from source_filter_run [OF a4, of c] sr
        show ?thesis
          by (cases r5) (simp_all add: ap f5 v2 v3 v4 filter_stages_def)
      qed
    qed
  qed
qed

lemma filter_table_stages: "filter_table re c df = filter_stages re c df"
proof -
  have "0 < length [df]" by simp
  from apply_filters_run [OF this, of re c]
  show ?thesis
    by (cases "apply_filters re c [df] 0")
      (auto simp: filter_table_def split: sum.splits)
qed

section \<open>Filtering twice\<close>

lemma select_rows_all: "list_all q (rows e) \<Longrightarrow> select_rows q e = e"
  by (simp add: select_rows_def list_all_iff)

lemma same_tzinfo_filter: "same_tzinfo rs \<Longrightarrow> same_tzinfo (filter q rs)"
  by (auto simp: same_tzinfo_def list_all_iff)

lemma same_tzinfo_map:
  "same_tzinfo (map (\<lambda>r. r\<lparr>Published_Date_Compare := g r\<rparr>) rs) = same_tzinfo rs"
  by (simp add: same_tzinfo_def list_all_iff)

lemma same_tzinfo_undated:
  "list_all (\<lambda>r. Published_Date r = None) rs \<Longrightarrow> same_tzinfo rs"
  by (auto simp: same_tzinfo_def list_all_iff)

lemma settled_select: "settled c df \<Longrightarrow> settled c (select_rows q df)"
  by (auto simp: settled_def select_rows_def list_all_iff same_tzinfo_filter)

lemma settled_date_stage:
  assumes "date_stage c df = Inr d"
  shows "settled c d"
proof (cases "''Published_Date'' \<in> set (columns df)")
  case False
  with assms show ?thesis by (simp add: date_stage_def settled_def)
next
  case True
  show ?thesis
  proof (cases "list_ex (\<lambda>r. Published_Date r \<noteq> None) (rows df)")
    case False
    with True assms
    have "d = select_rows (\<lambda>r. Published_Date r = None) df"
      by (simp add: date_stage_def)
    then show ?thesis
      by (auto simp: settled_def select_rows_def list_all_iff date_mask_def)
  next
    case ex: True
    with True assms have u: "same_tzinfo (rows df)"
      and d: "d = select_rows
                (date_mask (Timestamp (start_date c))
                   (Timestamp (end_date c) + Timedelta_days 1 - Timedelta_seconds 1))
                \<lparr>columns =
                   (if ''Published_Date_Compare'' \<in> set (columns df) then columns df
                    else columns df @ [''Published_Date_Compare'']),
                 rows =
                   map (\<lambda>r. r\<lparr>Published_Date_Compare :=
                                  map_option tz_localize_None (Published_Date r)\<rparr>)
                     (rows df)\<rparr>"
      by (auto simp: date_stage_def assign_compare_def split: if_splits)
    have "same_tzinfo (rows d)"
      using u by (simp add: d select_rows_def same_tzinfo_filter same_tzinfo_map)
    then show ?thesis
      by (auto simp: settled_def d select_rows_def list_all_iff)
  qed
qed

lemma assign_compare_settled:
  assumes "same_tzinfo (rows df)"
    and "''Published_Date_Compare'' \<in> set (columns df)"
    and "list_all (\<lambda>r. Published_Date_Compare r = map_option tz_localize_None (Published_Date r))
           (rows df)"
  shows "assign_compare df = Inr df"
proof -
  have "map (\<lambda>r. r\<lparr>Published_Date_Compare := map_option tz_localize_None (Published_Date r)\<rparr>)
          (rows df) = rows df"
    using assms(3) by (induction "rows df") (auto simp: list_all_iff map_idI)
  with assms(1,2) show ?thesis by (simp add: assign_compare_def)
qed

lemma date_stage_settled:
  assumes "settled c df"
  shows "date_stage c df = Inr df"
proof (cases "''Published_Date'' \<in> set (columns df)")
  case False
  then show ?thesis by (simp add: date_stage_def)
next
  case True
  show ?thesis
  proof (cases "list_ex (\<lambda>r. Published_Date r \<noteq> None) (rows df)")
    case False
    then have "list_all (\<lambda>r. Published_Date r = None) (rows df)"
      by (auto simp: list_all_iff list_ex_iff)
    with True False show ?thesis
      by (simp add: date_stage_def select_rows_all)
  next
    case ex: True
    then have "\<not> list_all (\<lambda>r. Published_Date r = None) (rows df)"
      by (auto simp: list_all_iff list_ex_iff)
    with assms True have "assign_compare df = Inr df"
      and "list_all
          (date_mask (Timestamp (start_date c))
             (Timestamp (end_date c) + Timedelta_days 1 - Timedelta_seconds 1))
          (rows df)"
      by (auto simp: settled_def intro: assign_compare_settled)
    with True ex show ?thesis
      by (simp add: date_stage_def select_rows_all)
  qed
qed

lemma search_stage_fix:
  assumes "search_stage re c d = Inr d'"
  shows "columns d' = columns d \<and> set (rows d') \<subseteq> set (rows d)
         \<and> (settled c d \<longrightarrow> settled c d')
         \<and> (\<forall>e. columns e = columns d \<and> set (rows e) \<subseteq> set (rows d')
                \<longrightarrow> search_stage re c e = Inr e)"
proof (cases "search_term c = []")
  case True
  with assms show ?thesis by (simp add: search_stage_def)
next
  case False
  with assms obtain p where p: "re_compile re (search_term c) = Inr p"
    and cols: "''Title'' \<in> set (columns d)" "''Description'' \<in> set (columns d)"
    and d': "d' = select_rows (\<lambda>r. p (Title r) \<or> p (Description r)) d"
    by (auto simp: search_stage_def split: if_splits sum.splits)
  have "search_stage re c e = Inr e"
    if "columns e = columns d" and "set (rows e) \<subseteq> set (rows d')" for e
  proof -
    from that(2) have "list_all (\<lambda>r. p (Title r) \<or> p (Description r)) (rows e)"
      by (auto simp: d' select_rows_def list_all_iff)
    then show ?thesis
      using False p cols that(1) by (simp add: search_stage_def select_rows_all)
  qed
  then show ?thesis
    by (auto simp: d' settled_select) (auto simp: select_rows_def)
qed

lemma keyword_stage_fix:
  assumes "keyword_stage c d = Inr d'"
  shows "columns d' = columns d \<and> set (rows d') \<subseteq> set (rows d)
         \<and> (settled c d \<longrightarrow> settled c d')
         \<and> (\<forall>e. columns e = columns d \<and> set (rows e) \<subseteq> set (rows d')
                \<longrightarrow> keyword_stage c e = Inr e)"
proof (cases "selected_keywords c = []")
  case True
  with assms show ?thesis by (simp add: keyword_stage_def)
next
  case False
  with assms have cols: "''Keyword'' \<in> set (columns d)"
    and d': "d' = select_rows (\<lambda>r. Keyword r \<in> set (selected_keywords c)) d"
    by (auto simp: keyword_stage_def split: if_splits)
  have "keyword_stage c e = Inr e"
    if "columns e = columns d" and "set (rows e) \<subseteq> set (rows d')" for e
  proof -
    from that(2) have "list_all (\<lambda>r. Keyword r \<in> set (selected_keywords c)) (rows e)"
      by (auto simp: d' select_rows_def list_all_iff)
    then show ?thesis
      using False cols that(1) by (simp add: keyword_stage_def select_rows_all)
  qed
  then show ?thesis
    by (auto simp: d' settled_select) (auto simp: select_rows_def)
qed

lemma source_stage_fix:
  assumes "source_stage c d = Inr d'"
  shows "columns d' = columns d \<and> set (rows d') \<subseteq> set (rows d)
         \<and> (settled c d \<longrightarrow> settled c d')
         \<and> (\<forall>e. columns e = columns d \<and> set (rows e) \<subseteq> set (rows d')
                \<longrightarrow> source_stage c e = Inr e)"
proof (cases "selected_sources c = []")
  case True
  with assms show ?thesis by (simp add: source_stage_def)
next
  case False
  with assms have cols: "''Source'' \<in> set (columns d)"
    and d': "d' = select_rows (\<lambda>r. Source r \<in> set (selected_sources c)) d"
    by (auto simp: source_stage_def split: if_splits)
  have "source_stage c e = Inr e"
    if "columns e = columns d" and "set (rows e) \<subseteq> set (rows d')" for e
  proof -
    from that(2) have "list_all (\<lambda>r. Source r \<in> set (selected_sources c)) (rows e)"
      by (auto simp: d' select_rows_def list_all_iff)
    then show ?thesis
      using False cols that(1) by (simp add: source_stage_def select_rows_all)
  qed
  then show ?thesis
    by (auto simp: d' settled_select) (auto simp: select_rows_def)
qed

lemma filter_table_Inr:
  assumes "filter_table re c df = Inr df'"
  obtains d1 d2 d3 where "date_stage c df = Inr d1" and "search_stage re c d1 = Inr d2"
    and "keyword_stage c d2 = Inr d3" and "source_stage c d3 = Inr df'"
  using assms by (auto simp: filter_table_stages filter_stages_def split: sum.splits)

lemma sample_table_columns: "columns sample_table = article_columns"
  by (simp add: sample_table_def DataFrame_def)

lemma sample_table_rows:
  "rows sample_table = [row_of article_dated, row_of article_undated, row_of article_late]"
  by (simp add: sample_table_def DataFrame_def)

lemma sample_table_same_tzinfo: "same_tzinfo (rows sample_table)"
  by (simp add: sample_table_rows same_tzinfo_def row_of_def article_dated_def
      article_undated_def article_late_def sample_datetime_def)

lemma sample_date_stage: "date_stage sample_criteria sample_table = Inr sample_filtered"
  using sample_table_same_tzinfo
  by (simp add: date_stage_def sample_table_columns sample_table_rows article_columns_def
      select_rows_def assign_compare_def date_mask_def ge_le_def row_of_def
      article_dated_def article_undated_def article_late_def sample_datetime_def
      sample_criteria_def Timestamp_def Timedelta_days_def Timedelta_seconds_def
      tz_localize_None_def sample_filtered_def)

lemma sample_filter_table: "filter_table re sample_criteria sample_table = Inr sample_filtered"
proof -
  have "search_term sample_criteria = []" "selected_keywords sample_criteria = []"
    "selected_sources sample_criteria = []"
    by (simp_all add: sample_criteria_def)
  then show ?thesis
    by (simp add: filter_table_stages filter_stages_def sample_date_stage search_stage_def
        keyword_stage_def source_stage_def)
qed

text \<open>
  C7. Applying the filter block with the same criteria to its own result gives that
  result again: when the block returns a table, the block run on that table returns it.
\<close>

theorem filter_twice_is_filter_once:
  assumes "filter_table re c df = Inr df'"
  shows "filter_table re c df' = Inr df'"
proof -
  from assms obtain d1 d2 d3 where dt: "date_stage c df = Inr d1"
    and s: "search_stage re c d1 = Inr d2"
    and k: "keyword_stage c d2 = Inr d3" and o: "source_stage c d3 = Inr df'"
    by (rule filter_table_Inr)
  note fs = search_stage_fix [OF s] and fk = keyword_stage_fix [OF k]
    and fo = source_stage_fix [OF o]
  have "settled c df'"
    using fs fk fo settled_date_stage [OF dt] by blast
  then have d: "date_stage c df' = Inr df'" by (rule date_stage_settled)
  have cols: "columns df' = columns d3" "columns d3 = columns d2" "columns d2 = columns d1"
    using fs fk fo by simp_all
  have sub: "set (rows df') \<subseteq> set (rows d3)" "set (rows d3) \<subseteq> set (rows d2)"
    using fk fo by simp_all
  have s': "search_stage re c df' = Inr df'"
    using fs cols sub by (metis subset_trans)
  have k': "keyword_stage c df' = Inr df'"
    using fk cols sub by metis
  have o': "source_stage c df' = Inr df'"
    using fo by blast
  show ?thesis
    by (simp add: filter_table_stages filter_stages_def d s' k' o')
qed

text \<open>
  On the sample the first run drops the third article and adds the helper column; the
  second run returns the table it is given.
\<close>

theorem filter_twice_is_filter_once_witness:
  "filter_table rejecting_re sample_criteria sample_table = Inr sample_filtered
   \<and> filter_table rejecting_re sample_criteria sample_filtered = Inr sample_filtered
   \<and> map URL (rows sample_filtered) = [''u1'', ''u2'']
   \<and> map URL (rows sample_table) = [''u1'', ''u2'', ''u3'']
   \<and> columns sample_filtered \<noteq> columns sample_table"
  using filter_twice_is_filter_once [OF sample_filter_table, of rejecting_re]
  by (simp add: sample_filter_table sample_filtered_def sample_table_rows
      sample_table_columns row_of_def article_dated_def article_undated_def
      article_late_def article_columns_def)

section \<open>The session's table after filtering\<close>

text \<open>
  C8. The filter block works on a copy: every table that was in the store before the
  block ran, the session's table \<open>df\<close> among them, is the same afterwards, whether the
  block returns or raises. What it computes lives in objects made after them.
\<close>

theorem filter_leaves_session_table:
  assumes "df < length h"
  shows "take (length h) (fst (apply_filters re c h df)) = h
         \<and> fst (apply_filters re c h df) ! df = h ! df"
proof -
  have t: "take (length h) (fst (apply_filters re c h df)) = h"
    using apply_filters_run [OF assms, of re c] by simp
  have "take (length h) (fst (apply_filters re c h df)) ! df
          = fst (apply_filters re c h df) ! df"
    using assms by simp
  with t show ?thesis by simp
qed

lemma sample_assign_compare: "assign_compare sample_table = Inr sample_with_helper"
  using sample_table_same_tzinfo
  by (simp add: assign_compare_def sample_table_columns sample_table_rows
      article_columns_def sample_with_helper_def row_of_def article_dated_def
      article_undated_def article_late_def sample_datetime_def tz_localize_None_def)

lemma sample_date_filter:
  "date_filter sample_criteria [sample_table] 0
     = ([sample_with_helper, sample_filtered], Inr 1)"
proof -
  have "0 < length [sample_table]" by simp
  from date_filter_run [OF this, of sample_criteria]
  have "snd (date_filter sample_criteria [sample_table] 0) = Inr 1
        \<and> fst (date_filter sample_criteria [sample_table] 0)
            = [sample_with_helper, select_rows
                 (date_mask (Timestamp (start_date sample_criteria))
                    (Timestamp (end_date sample_criteria) + Timedelta_days 1
                       - Timedelta_seconds 1))
                 sample_with_helper]"
    by (simp add: date_filter_def setitem_compare_def sample_assign_compare
        getitem_mask_def sample_table_columns sample_table_rows article_columns_def
        row_of_def article_dated_def Let_def)
  moreover have "select_rows
                 (date_mask (Timestamp (start_date sample_criteria))
                    (Timestamp (end_date sample_criteria) + Timedelta_days 1
                       - Timedelta_seconds 1))
                 sample_with_helper = sample_filtered"
    using sample_date_stage
    by (simp add: date_stage_def sample_assign_compare sample_table_columns
        sample_table_rows article_columns_def row_of_def article_dated_def)
  ultimately show ?thesis
    by (cases "date_filter sample_criteria [sample_table] 0") simp
qed

lemma sample_apply_filters:
  "apply_filters re sample_criteria [sample_table] 0
     = ([sample_table, sample_with_helper, sample_filtered], Inr 2)"
proof -
  have s: "search_term sample_criteria = []" "selected_keywords sample_criteria = []"
    "selected_sources sample_criteria = []"
    by (simp_all add: sample_criteria_def)
  have d: "date_filter sample_criteria [sample_table, sample_table] (Suc 0)
             = ([sample_table, sample_with_helper, sample_filtered], Inr 2)"
  proof -
    have "select_rows
            (date_mask (Timestamp (start_date sample_criteria))
               (Timestamp (end_date sample_criteria) + Timedelta_days 1
                  - Timedelta_seconds 1))
            sample_with_helper = sample_filtered"
      using sample_date_stage
      by (simp add: date_stage_def sample_assign_compare sample_table_columns
          sample_table_rows article_columns_def row_of_def article_dated_def)
    then show ?thesis
      by (simp add: date_filter_def setitem_compare_def sample_assign_compare
          getitem_mask_def sample_table_columns sample_table_rows article_columns_def
          row_of_def article_dated_def Let_def)
  qed
  show ?thesis
    by (simp add: apply_filters_def df_copy_def d search_filter_def keyword_filter_def
        source_filter_def s)
qed

text \<open>
  On the sample the block leaves three objects: the session's table as it was, the copy
  (which got the helper column), and the filtered table.
\<close>

theorem filter_leaves_session_table_witness:
  "fst (apply_filters rejecting_re sample_criteria [sample_table] 0) ! 0 = sample_table
   \<and> length (fst (apply_filters rejecting_re sample_criteria [sample_table] 0)) = 3
   \<and> columns (fst (apply_filters rejecting_re sample_criteria [sample_table] 0) ! 1)
       = article_columns @ [''Published_Date_Compare'']
   \<and> columns sample_table = article_columns"
proof -
  have a: "0 < length [sample_table]" by simp
  show ?thesis
    using filter_leaves_session_table [OF a, of rejecting_re sample_criteria]
    by (simp add: sample_apply_filters sample_table_columns sample_with_helper_def)
qed

section \<open>When the block returns\<close>

lemma assign_compare_columns:
  "assign_compare df = Inr d \<Longrightarrow> set (columns df) \<subseteq> set (columns d)"
  by (auto simp: assign_compare_def split: if_splits)

lemma date_stage_columns:
  "date_stage c df = Inr d \<Longrightarrow> set (columns df) \<subseteq> set (columns d)"
  by (auto simp: date_stage_def select_rows_def assign_compare_def
      split: if_splits sum.splits)

lemma date_stage_returns: "same_tzinfo (rows df) \<Longrightarrow> \<exists>d. date_stage c df = Inr d"
  by (simp add: date_stage_def assign_compare_def)

text \<open>
  On a table with the article columns whose dated rows agree in their time zone the
  block raises only when the search text does not compile; otherwise it returns a
  table.
\<close>

lemma filter_table_returns:
  assumes "set article_columns \<subseteq> set (columns df)"
    and "same_tzinfo (rows df)"
    and "search_term c = [] \<or> re_compile re (search_term c) = Inr p"
  shows "\<exists>df'. filter_table re c df = Inr df'"
proof -
  obtain d1 where d: "date_stage c df = Inr d1"
    using date_stage_returns [OF assms(2)] by blast
  have cols: "set article_columns \<subseteq> set (columns d1)"
    using assms(1) date_stage_columns [OF d] by blast
  then obtain d2 where s: "search_stage re c d1 = Inr d2"
    and c2: "columns d2 = columns d1"
    using assms(3)
    by (cases "search_term c = []")
      (auto simp: search_stage_def article_columns_def select_rows_def)
  from cols c2 obtain d3 where k: "keyword_stage c d2 = Inr d3" and c3: "columns d3 = columns d2"
    by (cases "selected_keywords c = []")
      (auto simp: keyword_stage_def article_columns_def select_rows_def)
  from cols c2 c3 obtain d4 where o: "source_stage c d3 = Inr d4"
    by (cases "selected_sources c = []")
      (auto simp: source_stage_def article_columns_def select_rows_def)
  show ?thesis
    by (simp add: filter_table_stages filter_stages_def d s k o)
qed


section \<open>The date filter and records without a date\<close>

lemma undated_assign_compare:
  "map article_of
     (filter (\<lambda>r. Published_Date r = None)
        (filter (date_mask lo hi)
           (map (\<lambda>r. r\<lparr>Published_Date_Compare := map_option tz_localize_None (Published_Date r)\<rparr>)
              rs)))
   = map article_of (filter (\<lambda>r. Published_Date r = None) rs)"
  by (induction rs) (auto simp: date_mask_def article_of_def)

lemma undated_date_stage:
  "date_stage c df = Inr d \<Longrightarrow>
   map article_of (filter (\<lambda>r. Published_Date r = None) (rows d))
     = map article_of (filter (\<lambda>r. Published_Date r = None) (rows df))"
  by (auto simp: date_stage_def select_rows_def assign_compare_def undated_assign_compare
      simp del: filter_filter split: if_splits)

text \<open>
  Whenever the date filter returns a table, whatever the start and end dates, the
  undated articles of that table are the undated articles of the table it was given,
  each as often and in the same order.
\<close>

lemma undated_rows_pass_when_date_filter_returns:
  assumes "a < length h" and "date_filter c h a = (h', Inr r)"
  shows "map article_of (filter (\<lambda>r. Published_Date r = None) (rows (h' ! r)))
         = map article_of (filter (\<lambda>r. Published_Date r = None) (rows (h ! a)))"
proof -
  from date_filter_run [OF assms(1), of c] assms(2)
  have "date_stage c (h ! a) = Inr (h' ! r)" by simp
  then show ?thesis by (rule undated_date_stage)
qed





section \<open>Empty selections\<close>

lemma keyword_filter_empty:
  "selected_keywords c = [] \<Longrightarrow> keyword_filter c h a = (h, Inr a)"
  by (simp add: keyword_filter_def)

lemma source_filter_empty:
  "selected_sources c = [] \<Longrightarrow> source_filter c h a = (h, Inr a)"
  by (simp add: source_filter_def)

lemma in_range_date_stage:
  assumes "list_all
             (\<lambda>r. case Published_Date r of
                     None \<Rightarrow> True
                   | Some dt \<Rightarrow>
                       Timestamp (start_date c) \<le> wall_clock dt
                       \<and> wall_clock dt
                           \<le> Timestamp (end_date c) + Timedelta_days 1 - Timedelta_seconds 1)
             rs"
  shows "map article_of
           (filter
              (date_mask (Timestamp (start_date c))
                 (Timestamp (end_date c) + Timedelta_days 1 - Timedelta_seconds 1))
              (map (\<lambda>r. r\<lparr>Published_Date_Compare :=
                             map_option tz_localize_None (Published_Date r)\<rparr>) rs))
         = map article_of rs"
  using assms
  by (induction rs)
    (auto simp: date_mask_def ge_le_def article_of_def tz_localize_None_def
      split: option.splits)

lemma all_undated_filter:
  "\<not> list_ex (\<lambda>r. Published_Date r \<noteq> None) rs \<Longrightarrow>
   filter (\<lambda>r. Published_Date r = None) rs = rs"
  by (induction rs) auto

text \<open>
  With both selections empty, no search text, dated rows of one time zone and a date
  range that holds every dated row, the block returns a table with the articles of the
  table it was given, each row in its place.
\<close>

lemma empty_selection_keeps_articles:
  assumes "search_term c = []" and "selected_keywords c = []" and "selected_sources c = []"
    and "same_tzinfo (rows df)"
    and "list_all
           (\<lambda>r. case Published_Date r of
                   None \<Rightarrow> True
                 | Some dt \<Rightarrow>
                     Timestamp (start_date c) \<le> wall_clock dt
                     \<and> wall_clock dt
                         \<le> Timestamp (end_date c) + Timedelta_days 1 - Timedelta_seconds 1)
           (rows df)"
  shows "\<exists>d. filter_table re c df = Inr d \<and> map article_of (rows d) = map article_of (rows df)"
  using assms
  by (simp add: filter_table_stages filter_stages_def search_stage_def keyword_stage_def
      source_stage_def date_stage_def select_rows_def assign_compare_def
      in_range_date_stage all_undated_filter)


section \<open>The end of the date range\<close>

text \<open>
  A dated row whose helper cell is the wall-clock reading of its date passes the date
  mask exactly from midnight of the start date to 23:59:59 of the end date.
\<close>

lemma date_mask_dated:
  assumes "Published_Date r = Some dt"
    and "Published_Date_Compare r = Some (tz_localize_None dt)"
  shows "date_mask (Timestamp s) (Timestamp e + Timedelta_days 1 - Timedelta_seconds 1) r
         \<longleftrightarrow> s * 86400000000 \<le> wall_clock dt
              \<and> wall_clock dt \<le> e * 86400000000 + 86399000000"
  using assms
  by (auto simp: date_mask_def ge_le_def Timestamp_def Timedelta_days_def
      Timedelta_seconds_def tz_localize_None_def)

text \<open>
  C4. The claim wants every timestamp of the end date kept. The sample's third article
  is dated 23:59:59.5 on 2 January 2024 (day 738887), so it lies on the end date of the
  range from day 738886 to day 738887; the date filter drops it, since the upper bound
  is the end date's 23:59:59.
\<close>

theorem last_second_of_end_date_dropped:
  "Published_Date article_late = Some \<lparr>wall_clock = 63839923199500000, tzinfo = Some tzutc\<rparr>
   \<and> Timestamp (end_date sample_criteria) \<le> 63839923199500000
   \<and> 63839923199500000 < Timestamp (end_date sample_criteria + 1)
   \<and> map URL (rows sample_table) = [''u1'', ''u2'', ''u3'']
   \<and> date_filter sample_criteria [sample_table] 0
       = ([sample_with_helper, sample_filtered], Inr 1)
   \<and> map URL (rows sample_filtered) = [''u1'', ''u2'']"
proof -
  have e: "end_date sample_criteria = 738887" by (simp add: sample_criteria_def)
  show ?thesis
    by (simp add: e sample_date_filter sample_table_rows sample_filtered_def row_of_def
        article_dated_def article_undated_def article_late_def Timestamp_def)
qed

section \<open>The search text as a pattern\<close>

lemma match_here_plain:
  "CHR ''.'' \<notin> set pat \<Longrightarrow> match_here pat s = starts_with_ci pat s"
  by (induction pat s rule: match_here.induct) (auto simp: atom_matches_def)

lemma re_search_plain:
  "CHR ''.'' \<notin> set pat \<Longrightarrow> re_search pat s = spec_substring_ci pat s"
  by (induction s) (simp_all add: match_here_plain)

text \<open>
  An ASCII search text without a dot and without any operator character is searched
  in ASCII titles and descriptions as the specification says; an empty one leaves the
  table as it is.
\<close>

lemma plain_search_is_substring_search:
  assumes "search_term c \<noteq> []"
    and "\<not> list_ex (\<lambda>ch. ch \<in> set re_operators \<or> \<not> is_ascii ch) (search_term c)"
    and "CHR ''.'' \<notin> set (search_term c)"
    and "''Title'' \<in> set (columns df)" and "''Description'' \<in> set (columns df)"
    and "list_all (\<lambda>r. list_all is_ascii (Title r) \<and> list_all is_ascii (Description r))
           (rows df)"
  shows "search_stage re c df = Inr (select_rows (spec_search_match (search_term c)) df)"
proof -
  let ?p = "\<lambda>s. if list_all is_ascii s then re_search (search_term c) s
                 else search_plain re (search_term c) s"
  have "filter (\<lambda>r. ?p (Title r) \<or> ?p (Description r)) (rows df)
          = filter (spec_search_match (search_term c)) (rows df)"
    using assms(3,6)
    by (intro filter_cong) (auto simp: spec_search_match_def re_search_plain list_all_iff)
  with assms(1,2,4,5) show ?thesis
    by (simp add: search_stage_def re_compile_def select_rows_def)
qed

lemma empty_search_is_no_restriction: "search_term c = [] \<Longrightarrow> search_stage re c df = Inr df"
  by (simp add: search_stage_def)

lemma dot_compiles:
  "re_compile re ''.''
     = Inr (\<lambda>s. if list_all is_ascii s then re_search ''.'' s else search_plain re ''.'' s)"
proof -
  have "\<not> list_ex (\<lambda>c. c \<in> set re_operators \<or> \<not> is_ascii c) ''.''"
    by code_simp
  then show ?thesis by (simp add: re_compile_def)
qed

lemma dot_found_in_titles:
  "list_all is_ascii ''Scope 3 emissions rise'' \<and> re_search ''.'' ''Scope 3 emissions rise''"
  "list_all is_ascii ''Carbon accounting'' \<and> re_search ''.'' ''Carbon accounting''"
  by code_simp+

text \<open>
  C5. The search text is compiled as a regular expression. With the search text \<open>.\<close>
  the block keeps the sample's first two articles, whose titles and descriptions hold
  no dot; the third article falls to the date filter.
\<close>

theorem dot_search_keeps_rows_without_dot:
  "(case filter_table rejecting_re (sample_criteria\<lparr>search_term := ''.''\<rparr>) sample_table of
      Inl e \<Rightarrow> []
    | Inr filtered_df \<Rightarrow> map (\<lambda>r. (Title r, Description r)) (rows filtered_df))
     = [(''Scope 3 emissions rise'', ''Companies report''), (''Carbon accounting'', [])]
   \<and> CHR ''.'' \<notin> set ''Scope 3 emissions rise'' \<union> set ''Companies report''
               \<union> set ''Carbon accounting''
   \<and> \<not> spec_search_match ''.'' (row_of article_dated)
   \<and> \<not> spec_search_match ''.'' (row_of article_undated)"
proof -
  have d: "date_stage (sample_criteria\<lparr>search_term := ''.''\<rparr>) sample_table
             = date_stage sample_criteria sample_table"
    by (simp add: date_stage_def split: sum.split)
  have s: "selected_keywords sample_criteria = []" "selected_sources sample_criteria = []"
    by (simp_all add: sample_criteria_def)
  have f: "filter_table rejecting_re (sample_criteria\<lparr>search_term := ''.''\<rparr>) sample_table
      = Inr sample_filtered"
    using dot_found_in_titles
    by (simp add: filter_table_stages filter_stages_def d sample_date_stage search_stage_def
        keyword_stage_def source_stage_def s dot_compiles sample_filtered_def
        article_columns_def select_rows_def row_of_def article_dated_def
        article_undated_def)
  have n1: "\<not> spec_search_match ''.'' (row_of article_dated)"
    by code_simp
  have n2: "\<not> spec_search_match ''.'' (row_of article_undated)"
    by code_simp
  have t: "(case filter_table rejecting_re (sample_criteria\<lparr>search_term := ''.''\<rparr>)
                  sample_table of
              Inl e \<Rightarrow> []
            | Inr filtered_df \<Rightarrow> map (\<lambda>r. (Title r, Description r)) (rows filtered_df))
           = [(''Scope 3 emissions rise'', ''Companies report''), (''Carbon accounting'', [])]"
    by (simp add: f sample_filtered_def row_of_def article_dated_def article_undated_def)
  from t n1 n2 show ?thesis by simp
qed

section \<open>Columns of the exports\<close>

lemma collect_feeds_columns:
  "\<not> df_empty (fst (collect_feeds L ks)) \<Longrightarrow>
   columns (fst (collect_feeds L ks)) = article_columns"
  by (auto simp: collect_feeds_def split_beta Let_def DataFrame_def df_empty_def
      drop_duplicates_URL_def split: if_splits)

text \<open>
  The collection's downloads: the CSV has the seven article columns as its header and
  one record per row of the table, the JSON one object per row with the seven labels
  as its keys.
\<close>

lemma collection_downloads_columns:
  assumes "\<not> df_empty (fst (collect_feeds L ks))"
  shows "collection_downloads (fst (collect_feeds L ks))
           = Some (to_csv (fst (collect_feeds L ks)), to_json (fst (collect_feeds L ks)))
         \<and> csv_header (to_csv (fst (collect_feeds L ks))) = article_columns
         \<and> length (csv_records (to_csv (fst (collect_feeds L ks))))
             = length (rows (fst (collect_feeds L ks)))
         \<and> list_all (\<lambda>rec. length rec = 7) (csv_records (to_csv (fst (collect_feeds L ks))))
         \<and> list_all (\<lambda>obj. map fst obj = article_columns)
             (to_json (fst (collect_feeds L ks)))"
  using assms collect_feeds_columns [OF assms]
  by (simp add: collection_downloads_def to_csv_def to_json_def list_all_iff comp_def
      article_columns_def)

text \<open>
  C9. The CSV of the filtered results is written from \<open>filtered_df\<close>, which carries the
  helper column whenever a row of the table has a date: on the sample its header has
  eight labels, \<open>Published_Date_Compare\<close> last, where the collection's CSV of the
  same table has the seven.
\<close>

theorem filtered_csv_has_helper_column:
  "filtered_download rejecting_re sample_criteria sample_table
     = Inr (Some (to_csv sample_filtered))
   \<and> csv_header (to_csv sample_filtered)
       = [''Keyword'', ''Title'', ''URL'', ''Published'', ''Published_Date'', ''Source'',
          ''Description'', ''Published_Date_Compare'']
   \<and> collection_downloads sample_table = Some (to_csv sample_table, to_json sample_table)
   \<and> csv_header (to_csv sample_table)
       = [''Keyword'', ''Title'', ''URL'', ''Published'', ''Published_Date'', ''Source'',
          ''Description'']"
  by (simp add: filtered_download_def sample_filter_table sample_filtered_def to_csv_def
      collection_downloads_def df_empty_def sample_table_columns sample_table_rows
      article_columns_def)

end
